theory Spec2Isabelle
  imports Main
begin

section \<open>Data model\<close>

text \<open>
  The CUDA backend of minitorch (\<^verbatim>\<open>minitorch/cuda_ops.py\<close>) works on strided views:
  a flat storage, a shape and a stride per dimension. Shapes, strides, coordinates and
  flat positions are natural numbers. Storage cells are kept polymorphic (\<open>'a\<close>); the
  source stores 64-bit floats, whose rounding is not part of this development: where a
  statement needs arithmetic laws it asks for them through a type class.
\<close>

type_synonym Shape = "nat list"
type_synonym Strides = "nat list"
type_synonym Index = "nat list"

datatype error =
    IndexingError     \<comment> \<open>shapes that do not broadcast (raised by \<^verbatim>\<open>shape_broadcast\<close>)\<close>
  | IndexError        \<comment> \<open>Python tuple or list index out of range on the host\<close>
  | AssertionError    \<comment> \<open>a failed host-side \<^verbatim>\<open>assert\<close>\<close>
  | OutOfBounds       \<comment> \<open>a device load or store outside its buffer\<close>

definition THREADS_PER_BLOCK :: nat where
  "THREADS_PER_BLOCK = 32"

definition BLOCK_DIM :: nat where
  \<comment> \<open>the constant of \<^verbatim>\<open>_reduce\<close>\<close>
  "BLOCK_DIM = 1024"

definition MM_BLOCK_DIM :: nat where
  \<comment> \<open>the constant \<^verbatim>\<open>BLOCK_DIM\<close> of \<^verbatim>\<open>_tensor_matrix_multiply\<close>\<close>
  "MM_BLOCK_DIM = 32"

definition size_of :: "Shape \<Rightarrow> nat" where
  "size_of sh = prod_list sh"

section \<open>Index arithmetic\<close>

text \<open>
  \<^verbatim>\<open>to_index\<close>, \<^verbatim>\<open>index_to_position\<close>, \<^verbatim>\<open>broadcast_index\<close> and \<^verbatim>\<open>shape_broadcast\<close> are imported by
  \<^verbatim>\<open>cuda_ops.py\<close> from \<^verbatim>\<open>tensor_data\<close>, which is not among the sources at hand. They are
  written here after sections 3 and 4.1 of the specification.
\<close>

text \<open>
  Modelled from the spec: \<^verbatim>\<open>to_index\<close> of \<^verbatim>\<open>tensor_data\<close>. The position is decomposed by
  successive modulo and integer division, from the last dimension to the first. The loop
  runs over the reversed shape and conses each digit in front of the coordinate built so
  far.
\<close>

fun to_index_loop :: "nat \<Rightarrow> nat list \<Rightarrow> Index \<Rightarrow> Index" where
  "to_index_loop cur_ord [] out_index = out_index"
| "to_index_loop cur_ord (sh # rest) out_index =
     to_index_loop (cur_ord div sh) rest ((cur_ord mod sh) # out_index)"

definition to_index :: "nat \<Rightarrow> Shape \<Rightarrow> Index" where
  "to_index ordinal sh = to_index_loop ordinal (rev sh) []"

text \<open>
  Modelled from the spec: \<^verbatim>\<open>index_to_position\<close> of \<^verbatim>\<open>tensor_data\<close>, the dot product of a
  coordinate and the strides.
\<close>

definition index_to_position :: "Index \<Rightarrow> Strides \<Rightarrow> nat" where
  "index_to_position index strides = sum_list (map (\<lambda>(ind, stride). ind * stride) (zip index strides))"


text \<open>
  Modelled from the spec: the standard contiguous (row-major) strides of a shape, the
  ones \<^verbatim>\<open>zeros\<close> and \<^verbatim>\<open>view\<close> give a tensor.
\<close>

fun contiguous_strides :: "Shape \<Rightarrow> Strides" where
  "contiguous_strides [] = []"
| "contiguous_strides (s # ss) = prod_list ss # contiguous_strides ss"

text \<open>
  Modelled from the spec: \<^verbatim>\<open>shape_broadcast\<close> of \<^verbatim>\<open>tensor_data\<close>. Two shapes are
  compatible when, right-aligned, every pair of extents is equal or holds a 1; the result
  takes the maximum of each pair, a missing leading dimension counting as 1. The helper
  walks the reversed shapes.
\<close>

fun shape_broadcast_rev :: "nat list \<Rightarrow> nat list \<Rightarrow> error + nat list" where
  "shape_broadcast_rev [] bs = Inr bs"
| "shape_broadcast_rev (a # as) [] = Inr (a # as)"
| "shape_broadcast_rev (a # as) (b # bs) =
     (if a = b \<or> a = 1 \<or> b = 1 then
        (case shape_broadcast_rev as bs of
           Inl e \<Rightarrow> Inl e
         | Inr cs \<Rightarrow> Inr (max a b # cs))
      else Inl IndexingError)"

definition shape_broadcast :: "Shape \<Rightarrow> Shape \<Rightarrow> error + Shape" where
  "shape_broadcast shape1 shape2 =
     (case shape_broadcast_rev (rev shape1) (rev shape2) of
        Inl e \<Rightarrow> Inl e
      | Inr cs \<Rightarrow> Inr (rev cs))"

text \<open>A coordinate of a shape: one entry per dimension, each below its extent.\<close>

definition valid_index :: "Index \<Rightarrow> Shape \<Rightarrow> bool" where
  "valid_index c sh = (length c = length sh \<and> list_all (\<lambda>(x, s). x < s) (zip c sh))"

section \<open>The reduction's output shape\<close>

text \<open>
  Lines 93 and 94 of \<^verbatim>\<open>CudaOps.reduce\<close>: the output shape is the input's with entry \<open>dim\<close>
  replaced by \<^verbatim>\<open>(a.shape[dim] - 1) // 1024 + 1\<close>. The subtraction and the floor division
  are Python's, on integers, so an extent 0 gives \<open>-1 div 1024 + 1 = 0\<close>. An axis that
  is not a dimension of the tensor raises \<^verbatim>\<open>IndexError\<close>. (Python would take a negative
  \<open>dim\<close> from the end; the kernel indexes its fixed-size coordinate buffer with the same
  number, so only axes counted from the front are valid for this backend.)
\<close>

definition reduce_out_shape :: "Shape \<Rightarrow> nat \<Rightarrow> error + Shape" where
  "reduce_out_shape a_shape dim =
     (if dim < length a_shape
      then Inr (a_shape[dim := nat ((int (a_shape ! dim) - 1) div 1024 + 1)])
      else Inl IndexError)"

section \<open>Device memory, threads and launches\<close>

text \<open>
  A kernel receives each storage as a device pointer. Device memory is a map from
  pointers to buffers, so that two arguments of a kernel may name the same buffer. CUDA
  leaves a load or a store outside its buffer undefined; the model makes it the error
  \<open>OutOfBounds\<close>, which stops the launch.
\<close>

type_synonym ('p, 'a) memory = "'p \<Rightarrow> 'a list"

definition load :: "('p, 'a) memory \<Rightarrow> 'p \<Rightarrow> nat \<Rightarrow> error + 'a" where
  "load mem p i = (if i < length (mem p) then Inr (mem p ! i) else Inl OutOfBounds)"

definition store :: "('p, 'a) memory \<Rightarrow> 'p \<Rightarrow> nat \<Rightarrow> 'a \<Rightarrow> error + ('p, 'a) memory" where
  "store mem p i v =
     (if i < length (mem p) then Inr (mem(p := (mem p)[i := v])) else Inl OutOfBounds)"

text \<open>
  Threads (or whole blocks) that do not communicate are run one after the other, in the
  order of the list; the first error ends the run.
\<close>

fun run_threads :: "('t \<Rightarrow> 'm \<Rightarrow> error + 'm) \<Rightarrow> 't list \<Rightarrow> 'm \<Rightarrow> error + 'm" where
  "run_threads kern [] m = Inr m"
| "run_threads kern (t # ts) m =
     (case kern t m of Inl e \<Rightarrow> Inl e | Inr m' \<Rightarrow> run_threads kern ts m')"



text \<open>Results of the threads of a block, gathered in thread order; the first error wins.\<close>

fun sequence_result :: "(error + 'a) list \<Rightarrow> error + 'a list" where
  "sequence_result [] = Inr []"
| "sequence_result (r # rs) =
     (case r of
        Inl e \<Rightarrow> Inl e
      | Inr x \<Rightarrow> (case sequence_result rs of Inl e \<Rightarrow> Inl e | Inr xs \<Rightarrow> Inr (x # xs)))"

section \<open>The elementwise kernels\<close>



section \<open>The reduction kernel\<close>

text \<open>
  \<^verbatim>\<open>_reduce\<close> (lines 310 to 346) is run by a block of 1024 threads that share \<open>cache\<close>.
  The block is modelled in phases separated by the barriers, as section 4.3 of the
  specification describes it: every thread stages its value, then the rounds of the tree
  follow one another, each round being the step of all the threads that take part in
  it, then thread 0 writes.

  Lines 331 to 333: the coordinate buffer of thread \<open>pos\<close>. The entry of the reduced
  axis is overwritten in place.
\<close>

definition reduce_thread_index :: "nat \<Rightarrow> Shape \<Rightarrow> nat \<Rightarrow> nat \<Rightarrow> Index" where
  "reduce_thread_index out_pos out_shape reduce_dim pos =
     (let out_index = to_index out_pos out_shape
      in out_index[reduce_dim := out_index ! reduce_dim * BLOCK_DIM + pos])"

text \<open>Line 335: the threads that load a value and run the loop.\<close>

definition reduce_active :: "nat \<Rightarrow> Shape \<Rightarrow> Shape \<Rightarrow> nat \<Rightarrow> nat \<Rightarrow> bool" where
  "reduce_active out_pos out_shape a_shape reduce_dim pos =
     (reduce_thread_index out_pos out_shape reduce_dim pos ! reduce_dim < a_shape ! reduce_dim)"

text \<open>Lines 328, 335 and 336: what thread \<open>pos\<close> leaves in \<open>cache[pos]\<close> before the loop.\<close>

definition reduce_stage ::
  "('p, 'a) memory \<Rightarrow> 'p \<Rightarrow> Shape \<Rightarrow> Strides \<Rightarrow> Shape \<Rightarrow> nat \<Rightarrow> 'a \<Rightarrow> nat \<Rightarrow> nat \<Rightarrow> error + 'a" where
  "reduce_stage mem a_storage a_shape a_strides out_shape reduce_dim reduce_value out_pos pos =
     (if reduce_active out_pos out_shape a_shape reduce_dim pos
      then load mem a_storage
             (index_to_position (reduce_thread_index out_pos out_shape reduce_dim pos) a_strides)
      else Inr reduce_value)"

text \<open>
  Lines 341 and 342, for all threads at once: one round of the tree. Only the threads
  that passed the test of line 335 are in the loop.
\<close>

definition tree_round :: "('a \<Rightarrow> 'a \<Rightarrow> 'a) \<Rightarrow> (nat \<Rightarrow> bool) \<Rightarrow> nat \<Rightarrow> 'a list \<Rightarrow> 'a list" where
  "tree_round fn active idx cache =
     map (\<lambda>pos. if active pos \<and> pos mod (2 ^ idx * 2) = 0
                then fn (cache ! pos) (cache ! (pos + 2 ^ idx))
                else cache ! pos)
       [0..<BLOCK_DIM]"

text \<open>Lines 339 to 344: the loop \<^verbatim>\<open>while 2**idx < BLOCK_DIM\<close>.\<close>

function tree_combine :: "('a \<Rightarrow> 'a \<Rightarrow> 'a) \<Rightarrow> (nat \<Rightarrow> bool) \<Rightarrow> nat \<Rightarrow> 'a list \<Rightarrow> 'a list" where
  "tree_combine fn active idx cache =
     (if 2 ^ idx < BLOCK_DIM
      then tree_combine fn active (idx + 1) (tree_round fn active idx cache)
      else cache)"
  by pat_completeness auto
termination
proof (relation "measure (\<lambda>(fn, active, idx, cache). BLOCK_DIM - 2 ^ idx)")
  show "wf (measure (\<lambda>(fn :: 'a \<Rightarrow> 'a \<Rightarrow> 'a, active :: nat \<Rightarrow> bool, idx :: nat, cache :: 'a list).
                       BLOCK_DIM - 2 ^ idx))"
    by simp
next
  fix fn :: "'a \<Rightarrow> 'a \<Rightarrow> 'a" and active :: "nat \<Rightarrow> bool" and idx :: nat and cache :: "'a list"
  assume "(2::nat) ^ idx < BLOCK_DIM"
  moreover have "(0::nat) < 2 ^ idx" by simp
  ultimately have "BLOCK_DIM - 2 * 2 ^ idx < BLOCK_DIM - 2 ^ idx" by linarith
  then show "((fn, active, idx + 1, tree_round fn active idx cache), (fn, active, idx, cache))
        \<in> measure (\<lambda>(fn, active, idx, cache). BLOCK_DIM - 2 ^ idx)"
    by simp
qed

text \<open>
  The block \<open>blockIdx\<close> of \<^verbatim>\<open>_reduce\<close>. Reading \<^verbatim>\<open>a_shape[reduce_dim]\<close> outside the shape is
  out of bounds.
\<close>

definition tensor_reduce ::
  "('a \<Rightarrow> 'a \<Rightarrow> 'a) \<Rightarrow> 'p \<Rightarrow> Shape \<Rightarrow> Strides \<Rightarrow> nat \<Rightarrow> 'p \<Rightarrow> Shape \<Rightarrow> Strides \<Rightarrow>
   nat \<Rightarrow> 'a \<Rightarrow> nat \<Rightarrow> ('p, 'a) memory \<Rightarrow> error + ('p, 'a) memory" where
  "tensor_reduce fn out out_shape out_strides out_size a_storage a_shape a_strides
     reduce_dim reduce_value blockIdx mem =
     (let out_pos = blockIdx in
      if out_pos < out_size then
        (if reduce_dim < length a_shape \<and> reduce_dim < length out_shape then
           (case sequence_result
                   (map (reduce_stage mem a_storage a_shape a_strides out_shape reduce_dim
                           reduce_value out_pos)
                      [0..<BLOCK_DIM]) of
              Inl e \<Rightarrow> Inl e
            | Inr cache0 \<Rightarrow>
                (let cache = tree_combine fn
                               (reduce_active out_pos out_shape a_shape reduce_dim) 0 cache0
                 in store mem out
                      (index_to_position
                         (reduce_thread_index out_pos out_shape reduce_dim 0) out_strides)
                      (cache ! 0)))
         else Inl OutOfBounds)
      else Inr mem)"

section \<open>Tensors on the host\<close>

text \<open>
  Modelled from the spec: the tensor view of section 3 (class \<^verbatim>\<open>Tensor\<close>, not among the
  sources at hand), a storage with a shape and strides; \<^verbatim>\<open>size\<close> is the product of the
  shape, \<^verbatim>\<open>zeros\<close> gives a contiguous tensor of zeros.
\<close>

record 'a tensor =
  storage :: "'a list"
  shape :: Shape
  strides :: Strides

definition tensor_size :: "'a tensor \<Rightarrow> nat" where
  "tensor_size t = size_of (shape t)"

definition zeros :: "Shape \<Rightarrow> ('a::zero) tensor" where
  "zeros sh = \<lparr>storage = replicate (size_of sh) 0, shape = sh, strides = contiguous_strides sh\<rparr>"

text \<open>The element of a tensor at a coordinate.\<close>

definition elem :: "'a tensor \<Rightarrow> Index \<Rightarrow> 'a" where
  "elem t c = storage t ! index_to_position c (strides t)"

text \<open>
  A well-formed tensor: one stride per dimension, and every coordinate of the shape lies
  inside the storage.
\<close>

definition wf_tensor :: "'a tensor \<Rightarrow> bool" where
  "wf_tensor t =
     (length (strides t) = length (shape t) \<and>
      list_all (\<lambda>i. index_to_position (to_index i (shape t)) (strides t) < length (storage t))
        [0..<tensor_size t])"

text \<open>
  The host gives each launch its own buffers: the output is freshly allocated (or, for
  \<^verbatim>\<open>map\<close>, the \<open>out\<close> argument, which section 5 of the specification forbids to share
  storage with an input).
\<close>

datatype buffer = OUT | IN_A | IN_B

definition device_memory :: "'a list \<Rightarrow> 'a list \<Rightarrow> 'a list \<Rightarrow> (buffer, 'a) memory" where
  "device_memory out a b = (\<lambda>p. case p of OUT \<Rightarrow> out | IN_A \<Rightarrow> a | IN_B \<Rightarrow> b)"

text \<open>
  Modelled from the spec: \<^verbatim>\<open>contiguous\<close> and \<^verbatim>\<open>view\<close> of class \<^verbatim>\<open>Tensor\<close>, which
  \<^verbatim>\<open>matrix_multiply\<close> uses to give a 2D operand its implicit batch of size 1 (section 4.4):
  the elements in row-major order, and the same storage under another shape.
\<close>

definition contiguous :: "'a tensor \<Rightarrow> 'a tensor" where
  "contiguous t =
     \<lparr>storage = map (\<lambda>i. elem t (to_index i (shape t))) [0..<tensor_size t],
      shape = shape t, strides = contiguous_strides (shape t)\<rparr>"

definition view :: "'a tensor \<Rightarrow> Shape \<Rightarrow> 'a tensor" where
  "view t sh = t\<lparr>shape := sh, strides := contiguous_strides sh\<rparr>"



text \<open>
  \<^verbatim>\<open>CudaOps.reduce\<close>, lines 92 to 103: one block of 1024 threads per output position.
\<close>

definition cuda_reduce ::
  "('a \<Rightarrow> 'a \<Rightarrow> 'a) \<Rightarrow> 'a \<Rightarrow> ('a::zero) tensor \<Rightarrow> nat \<Rightarrow> error + 'a tensor" where
  "cuda_reduce fn start a dim =
     (case reduce_out_shape (shape a) dim of
        Inl e \<Rightarrow> Inl e
      | Inr out_shape \<Rightarrow>
          (let out_a = zeros out_shape;
               blockspergrid = tensor_size out_a
           in case run_threads
                     (tensor_reduce fn OUT (shape out_a) (strides out_a) (tensor_size out_a)
                        IN_A (shape a) (strides a) dim start)
                     [0..<blockspergrid]
                     (device_memory (storage out_a) (storage a) []) of
                Inl e \<Rightarrow> Inl e
              | Inr mem \<Rightarrow> Inr (out_a\<lparr>storage := mem OUT\<rparr>)))"

section \<open>The matrix multiplication kernel\<close>

text \<open>
  \<^verbatim>\<open>_tensor_matrix_multiply\<close> (lines 435 to 534) is run by blocks of \<open>blockDim \<times> blockDim\<close>
  threads that share the two tiles. As for the reduction, a block is modelled in the
  phases its barriers separate: for each chunk of the shared axis all threads load their
  cell of each tile, then all threads accumulate; after the last chunk every thread
  writes its cell of the output.

  Lines 464 and 500 to 505: the value thread \<open>(pi, pj)\<close> stores in \<^verbatim>\<open>a_shared[pi, pj]\<close> for
  the chunk starting at \<open>idx\<close>; \<open>i\<close> is the row of the thread.
\<close>

definition mm_load_a ::
  "('p, 'a::zero) memory \<Rightarrow> 'p \<Rightarrow> Shape \<Rightarrow> Strides \<Rightarrow> nat \<Rightarrow> nat \<Rightarrow> nat \<Rightarrow> nat \<Rightarrow> error + 'a" where
  "mm_load_a mem a_storage a_shape a_strides batch i idx pj =
     (let a_batch_stride = (if a_shape ! 0 > 1 then a_strides ! 0 else 0) in
      if i < a_shape ! 1 \<and> idx + pj < a_shape ! 2
      then load mem a_storage
             (a_batch_stride * batch + a_strides ! 1 * i + a_strides ! 2 * (idx + pj))
      else Inr 0)"

text \<open>
  Lines 466 and 508 to 513: the value thread \<open>(pi, pj)\<close> stores in \<^verbatim>\<open>b_shared[pi, pj]\<close>;
  \<open>j\<close> is the column of the thread.
\<close>

definition mm_load_b ::
  "('p, 'a::zero) memory \<Rightarrow> 'p \<Rightarrow> Shape \<Rightarrow> Strides \<Rightarrow> nat \<Rightarrow> nat \<Rightarrow> nat \<Rightarrow> nat \<Rightarrow> error + 'a" where
  "mm_load_b mem b_storage b_shape b_strides batch j idx pi =
     (let b_batch_stride = (if b_shape ! 0 > 1 then b_strides ! 0 else 0) in
      if j < b_shape ! 2 \<and> idx + pi < b_shape ! 1
      then load mem b_storage
             (b_batch_stride * batch + b_strides ! 1 * (idx + pi) + b_strides ! 2 * j)
      else Inr 0)"

text \<open>A tile after the barrier of line 516: row \<open>pi\<close>, column \<open>pj\<close> holds what thread
  \<open>(pi, pj)\<close> stored.\<close>

definition load_tile :: "nat \<Rightarrow> (nat \<Rightarrow> nat \<Rightarrow> error + 'a) \<Rightarrow> error + 'a list list" where
  "load_tile blockDim ld =
     sequence_result
       (map (\<lambda>pi. sequence_result (map (\<lambda>pj. ld pi pj) [0..<blockDim])) [0..<blockDim])"

text \<open>Lines 519 to 523: the inner loop of thread \<open>(pi, pj)\<close> on its accumulator.\<close>

definition mm_dot ::
  "('a::{plus,times}) list list \<Rightarrow> 'a list list \<Rightarrow> nat \<Rightarrow> nat \<Rightarrow> nat \<Rightarrow> nat \<Rightarrow> 'a \<Rightarrow> 'a" where
  "mm_dot a_shared b_shared K idx pi pj accum =
     foldl (\<lambda>acc k. if idx + k < K then acc + a_shared ! pi ! k * b_shared ! k ! pj else acc)
       accum [0..<MM_BLOCK_DIM]"

text \<open>\<^verbatim>\<open>range(0, a_shape[2], BLOCK_DIM)\<close>, line 496.\<close>

definition chunk_starts :: "nat \<Rightarrow> nat list" where
  "chunk_starts K = map (\<lambda>c. c * MM_BLOCK_DIM) [0..<(K + MM_BLOCK_DIM - 1) div MM_BLOCK_DIM]"

text \<open>
  Lines 496 to 526: the loop over the chunks. The accumulators are thread-local: \<open>accum pi
  pj\<close> is the one of thread \<open>(pi, pj)\<close>.
\<close>

fun mm_chunks ::
  "nat \<Rightarrow> (nat \<Rightarrow> nat \<Rightarrow> nat \<Rightarrow> error + 'a) \<Rightarrow> (nat \<Rightarrow> nat \<Rightarrow> nat \<Rightarrow> error + 'a) \<Rightarrow> nat \<Rightarrow>
   nat list \<Rightarrow> (nat \<Rightarrow> nat \<Rightarrow> ('a::{plus,times})) \<Rightarrow> error + (nat \<Rightarrow> nat \<Rightarrow> 'a)" where
  "mm_chunks blockDim ld_a ld_b K [] accum = Inr accum"
| "mm_chunks blockDim ld_a ld_b K (idx # rest) accum =
     (case load_tile blockDim (ld_a idx) of
        Inl e \<Rightarrow> Inl e
      | Inr a_shared \<Rightarrow>
          (case load_tile blockDim (ld_b idx) of
             Inl e \<Rightarrow> Inl e
           | Inr b_shared \<Rightarrow>
               mm_chunks blockDim ld_a ld_b K rest
                 (\<lambda>pi pj. mm_dot a_shared b_shared K idx pi pj (accum pi pj))))"

text \<open>Lines 529 to 534: the guarded write of thread \<open>(pi, pj)\<close> of block \<open>(bx, by, batch)\<close>.\<close>

definition mm_write ::
  "'p \<Rightarrow> Shape \<Rightarrow> Strides \<Rightarrow> nat \<Rightarrow> nat \<times> nat \<times> nat \<Rightarrow> (nat \<Rightarrow> nat \<Rightarrow> 'a) \<Rightarrow> nat \<times> nat \<Rightarrow>
   ('p, 'a) memory \<Rightarrow> error + ('p, 'a) memory" where
  "mm_write out out_shape out_strides blockDim block accum thread mem =
     (let batch = snd (snd block);
          i = fst block * blockDim + fst thread;
          j = fst (snd block) * blockDim + snd thread
      in if batch < out_shape ! 0 \<and> i < out_shape ! 1 \<and> j < out_shape ! 2
         then store mem out (out_strides ! 0 * batch + out_strides ! 1 * i + out_strides ! 2 * j)
                (accum (fst thread) (snd thread))
         else Inr mem)"

definition block_threads :: "nat \<Rightarrow> (nat \<times> nat) list" where
  "block_threads blockDim =
     concat (map (\<lambda>pi. map (\<lambda>pj. (pi, pj)) [0..<blockDim]) [0..<blockDim])"

text \<open>
  The block \<open>(bx, by, batch)\<close> of the kernel. The kernel reads the first three entries of
  every shape and stride tuple; a shorter tuple is read out of bounds.
\<close>

definition tensor_matrix_multiply ::
  "'p \<Rightarrow> Shape \<Rightarrow> Strides \<Rightarrow> nat \<Rightarrow> 'p \<Rightarrow> Shape \<Rightarrow> Strides \<Rightarrow> 'p \<Rightarrow> Shape \<Rightarrow> Strides \<Rightarrow>
   nat \<Rightarrow> nat \<times> nat \<times> nat \<Rightarrow> ('p, 'a::{zero,plus,times}) memory \<Rightarrow> error + ('p, 'a) memory" where
  "tensor_matrix_multiply out out_shape out_strides out_size a_storage a_shape a_strides
     b_storage b_shape b_strides blockDim block mem =
     (if 3 \<le> length out_shape \<and> 3 \<le> length out_strides \<and> 3 \<le> length a_shape \<and>
         3 \<le> length a_strides \<and> 3 \<le> length b_shape \<and> 3 \<le> length b_strides
      then
        (let batch = snd (snd block) in
         case mm_chunks blockDim
                (\<lambda>idx pi pj. mm_load_a mem a_storage a_shape a_strides batch
                                (fst block * blockDim + pi) idx pj)
                (\<lambda>idx pi pj. mm_load_b mem b_storage b_shape b_strides batch
                                (fst (snd block) * blockDim + pj) idx pi)
                (a_shape ! 2) (chunk_starts (a_shape ! 2)) (\<lambda>pi pj. 0) of
           Inl e \<Rightarrow> Inl e
         | Inr accum \<Rightarrow>
             run_threads (mm_write out out_shape out_strides blockDim block accum)
               (block_threads blockDim) mem)
      else Inl OutOfBounds)"

text \<open>The blocks of a three-dimensional grid \<open>(gx, gy, gz)\<close>.\<close>

definition grid_blocks :: "nat \<Rightarrow> nat \<Rightarrow> nat \<Rightarrow> (nat \<times> nat \<times> nat) list" where
  "grid_blocks gx gy gz =
     concat (map (\<lambda>bz. concat (map (\<lambda>by. map (\<lambda>bx. (bx, by, bz)) [0..<gx]) [0..<gy])) [0..<gz])"

text \<open>
  \<^verbatim>\<open>CudaOps.matrix_multiply\<close>, lines 108 to 140. \<^verbatim>\<open>a.shape[:-2]\<close> drops the last two
  extents; \<^verbatim>\<open>a.shape[-2]\<close>, \<^verbatim>\<open>b.shape[-1]\<close> and \<^verbatim>\<open>b.shape[-2]\<close> raise \<^verbatim>\<open>IndexError\<close> on
  a shape that is too short. The output then has at least three dimensions, so that
  \<^verbatim>\<open>out.shape[0]\<close>, \<^verbatim>\<open>out.shape[1]\<close> and \<^verbatim>\<open>out.shape[2]\<close> exist.
\<close>

definition as_3d :: "'a tensor \<Rightarrow> 'a tensor" where
  \<comment> \<open>lines 111, 112 and 114, 115: a 2D operand gets a batch of size 1\<close>
  "as_3d t = (if length (shape t) = 2
              then view (contiguous t) [1, shape t ! 0, shape t ! 1] else t)"

definition matrix_multiply ::
  "('a::{zero,plus,times}) tensor \<Rightarrow> 'a tensor \<Rightarrow> error + 'a tensor" where
  "matrix_multiply a0 b0 =
     (let a = as_3d a0;
          b = as_3d b0;
          both_2d = (length (shape a0) = 2 \<and> length (shape b0) = 2)
      in case shape_broadcast (take (length (shape a) - 2) (shape a))
                (take (length (shape b) - 2) (shape b)) of
           Inl e \<Rightarrow> Inl e
         | Inr ls \<Rightarrow>
             if length (shape a) < 2 \<or> length (shape b) < 2 then Inl IndexError
             else if last (shape a) \<noteq> shape b ! (length (shape b) - 2) then Inl AssertionError
             else
               (let out = zeros (ls @ [shape a ! (length (shape a) - 2), last (shape b)]);
                    blockspergrid = grid_blocks
                      ((shape out ! 1 + (THREADS_PER_BLOCK - 1)) div THREADS_PER_BLOCK)
                      ((shape out ! 2 + (THREADS_PER_BLOCK - 1)) div THREADS_PER_BLOCK)
                      (shape out ! 0)
                in case run_threads
                          (tensor_matrix_multiply OUT (shape out) (strides out) (tensor_size out)
                             IN_A (shape a) (strides a) IN_B (shape b) (strides b)
                             THREADS_PER_BLOCK)
                          blockspergrid
                          (device_memory (storage out) (storage a) (storage b)) of
                     Inl e \<Rightarrow> Inl e
                   | Inr mem \<Rightarrow>
                       (let out' = out\<lparr>storage := mem OUT\<rparr>
                        in Inr (if both_2d then view out' [shape out' ! 1, shape out' ! 2]
                                else out'))))"

section \<open>Writes of a launch\<close>

text \<open>
  The effect on one buffer of a sequence of threads, each of which stores at most one
  cell: \<open>None\<close> for a thread that stores nothing, \<open>Some (i, v)\<close> for the store of \<open>v\<close> at
  position \<open>i\<close>.
\<close>

fun apply_writes :: "(nat \<times> 'a) option list \<Rightarrow> 'a list \<Rightarrow> 'a list" where
  "apply_writes [] xs = xs"
| "apply_writes (None # ws) xs = apply_writes ws xs"
| "apply_writes (Some (i, v) # ws) xs = apply_writes ws (xs[i := v])"



text \<open>
  The store of a thread that owns the output coordinate \<open>c\<close>: nothing when \<open>c\<close> is outside
  the shape (the bounds guard), else the value \<open>val c\<close> at the position of \<open>c\<close>.
\<close>

definition cell_write ::
  "Shape \<Rightarrow> Strides \<Rightarrow> (Index \<Rightarrow> 'a) \<Rightarrow> Index \<Rightarrow> (nat \<times> 'a) option" where
  "cell_write sh st val c =
     (if valid_index c sh then Some (index_to_position c st, val c) else None)"

text \<open>The output coordinate of thread \<open>(pi, pj)\<close> of block \<open>(bx, by, batch)\<close> (lines 469, 479, 480).\<close>

definition mm_coord :: "nat \<Rightarrow> nat \<times> nat \<times> nat \<Rightarrow> nat \<times> nat \<Rightarrow> Index" where
  "mm_coord blockDim block thread =
     [snd (snd block), fst block * blockDim + fst thread, fst (snd block) * blockDim + snd thread]"

text \<open>
  The value section 4.4 of the specification gives the output cell at coordinate \<open>c =
  [p, i, j]\<close>: the products \<open>a[p or 0, i, k] * b[p or 0, k, j]\<close> summed over \<open>k\<close>, from 0
  and in increasing \<open>k\<close>; an operand whose batch extent is not above 1 is read at batch 0.
\<close>

definition mm_cell :: "('a::{zero,plus,times}) tensor \<Rightarrow> 'a tensor \<Rightarrow> Index \<Rightarrow> 'a" where
  "mm_cell a b c =
     foldl (\<lambda>acc k. acc + elem a [if 1 < shape a ! 0 then c ! 0 else 0, c ! 1, k]
                         * elem b [if 1 < shape b ! 0 then c ! 0 else 0, k, c ! 2])
       0 [0..<shape a ! 2]"

section \<open>Index arithmetic: the round trip\<close>

lemma to_index_loop_acc:
  "to_index_loop n rs acc = to_index_loop n rs [] @ acc"
proof (induction rs arbitrary: n acc)
  case Nil
  show ?case by simp
next
  case (Cons r rs)
  have "to_index_loop n (r # rs) acc = to_index_loop (n div r) rs [] @ ((n mod r) # acc)"
    using Cons.IH [of "n div r" "(n mod r) # acc"] by simp
  moreover have "to_index_loop n (r # rs) [] = to_index_loop (n div r) rs [] @ [n mod r]"
    using Cons.IH [of "n div r" "[n mod r]"] by simp
  ultimately show ?case by simp
qed

lemma to_index_Nil [simp]: "to_index n [] = []"
  by (simp add: to_index_def)

lemma to_index_snoc: "to_index n (sh @ [s]) = to_index (n div s) sh @ [n mod s]"
  unfolding to_index_def
  by (simp add: to_index_loop_acc [of "n div s" "rev sh" "[n mod s]"])

lemma length_to_index [simp]: "length (to_index n sh) = length sh"
  by (induction sh arbitrary: n rule: rev_induct) (simp_all add: to_index_snoc)

lemma contiguous_strides_snoc:
  "contiguous_strides (sh @ [s]) = map (\<lambda>x. x * s) (contiguous_strides sh) @ [1]"
  by (induction sh) simp_all

lemma length_contiguous_strides [simp]: "length (contiguous_strides sh) = length sh"
  by (induction sh) simp_all

lemma index_to_position_append:
  "length c = length st \<Longrightarrow>
   index_to_position (c @ c') (st @ st') = index_to_position c st + index_to_position c' st'"
  by (simp add: index_to_position_def)

lemma index_to_position_scale:
  "index_to_position c (map (\<lambda>x. x * s) st) = index_to_position c st * s"
proof (induction c arbitrary: st)
  case Nil
  show ?case by (simp add: index_to_position_def)
next
  case (Cons x c)
  show ?case
  proof (cases st)
    case Nil
    then show ?thesis by (simp add: index_to_position_def)
  next
    case (Cons y st')
    have "index_to_position c (map (\<lambda>x. x * s) st') = index_to_position c st' * s"
      by (rule Cons.IH)
    then show ?thesis
      using Cons by (simp add: index_to_position_def algebra_simps)
  qed
qed

lemma position_of_to_index:
  "i < prod_list sh \<Longrightarrow> index_to_position (to_index i sh) (contiguous_strides sh) = i"
proof (induction sh arbitrary: i rule: rev_induct)
  case Nil
  then show ?case by (simp add: index_to_position_def)
next
  case (snoc s sh)
  from snoc.prems have lt: "i < prod_list sh * s" by simp
  then have s_pos: "0 < s" by (cases s) simp_all
  from lt s_pos have "i div s < prod_list sh"
    by (simp add: less_mult_imp_div_less)
  then have IH: "index_to_position (to_index (i div s) sh) (contiguous_strides sh) = i div s"
    by (rule snoc.IH)
  have "index_to_position (to_index i (sh @ [s])) (contiguous_strides (sh @ [s]))
      = index_to_position (to_index (i div s) sh) (map (\<lambda>x. x * s) (contiguous_strides sh))
        + index_to_position [i mod s] [1]"
    by (simp add: to_index_snoc contiguous_strides_snoc index_to_position_append)
  also have "\<dots> = (i div s) * s + i mod s"
    by (simp add: index_to_position_scale IH) (simp add: index_to_position_def)
  also have "\<dots> = i" by simp
  finally show ?case .
qed

text \<open>
  C10. For every shape \<open>S\<close> and every flat position \<open>i\<close> below \<open>size S\<close>, decoding \<open>i\<close>
  with \<open>to_index\<close> and encoding the coordinate with the contiguous strides of \<open>S\<close> gives
  \<open>i\<close> back.
\<close>

theorem to_index_round_trip:
  "i < size_of S \<Longrightarrow> index_to_position (to_index i S) (contiguous_strides S) = i"
  unfolding size_of_def by (rule position_of_to_index)

theorem to_index_round_trip_witness:
  "(5::nat) < size_of [2, 3] \<and> to_index 5 [2, 3] = [1, 2]
   \<and> contiguous_strides [2, 3] = [3, 1]
   \<and> index_to_position (to_index 5 [2, 3]) (contiguous_strides [2, 3]) = 5"
proof -
  have h: "(5::nat) < size_of [2, 3]" by (simp add: size_of_def)
  have d: "to_index 5 [2, 3] = [1, 2]" by (simp add: to_index_def)
  have c: "contiguous_strides [2, 3] = [3, 1]" by simp
  from h d c to_index_round_trip [OF h] show ?thesis by simp
qed

section \<open>Coordinates and positions\<close>


lemma valid_index_snoc:
  "valid_index (c @ [x]) (sh @ [s]) \<longleftrightarrow> valid_index c sh \<and> x < s"
  by (auto simp: valid_index_def)

lemma valid_index_Nil [simp]: "valid_index c [] \<longleftrightarrow> c = []"
  by (auto simp: valid_index_def)


lemma valid_index_position:
  "valid_index c sh \<Longrightarrow>
   index_to_position c (contiguous_strides sh) < prod_list sh \<and>
   to_index (index_to_position c (contiguous_strides sh)) sh = c"
proof (induction sh arbitrary: c rule: rev_induct)
  case Nil
  then show ?case by (simp add: index_to_position_def)
next
  case (snoc s sh)
  from snoc.prems have len: "length c = Suc (length sh)" by (simp add: valid_index_def)
  then obtain c' x where c: "c = c' @ [x]"
    by (cases c rule: rev_cases) simp_all
  with snoc.prems have v: "valid_index c' sh" and x: "x < s"
    by (simp_all add: valid_index_snoc)
  from v have len': "length c' = length sh" by (simp add: valid_index_def)
  let ?q = "index_to_position c' (contiguous_strides sh)"
  from snoc.IH [OF v] have q: "?q < prod_list sh" and rt: "to_index ?q sh = c'" by simp_all
  have "index_to_position [x] [1] = x" by (simp add: index_to_position_def)
  then have pos: "index_to_position c (contiguous_strides (sh @ [s])) = ?q * s + x"
    by (simp add: c contiguous_strides_snoc index_to_position_append len'
                  index_to_position_scale)
  have "Suc ?q \<le> prod_list sh" using q by simp
  then have "Suc ?q * s \<le> prod_list sh * s" by (rule mult_le_mono1)
  moreover have "?q * s + x < Suc ?q * s" using x by simp
  ultimately have bound: "?q * s + x < prod_list (sh @ [s])" by simp
  have "(?q * s + x) div s = ?q" "(?q * s + x) mod s = x" using x by simp_all
  then have "to_index (?q * s + x) (sh @ [s]) = c"
    by (simp add: to_index_snoc rt c)
  with bound pos show ?case by simp
qed

section \<open>Launches of threads that store one cell each\<close>

lemma length_apply_writes [simp]: "length (apply_writes ws xs) = length xs"
  by (induction ws xs rule: apply_writes.induct) simp_all

lemma apply_writes_untouched:
  "\<forall>v. Some (i, v) \<notin> set ws \<Longrightarrow> apply_writes ws xs ! i = xs ! i"
  by (induction ws xs rule: apply_writes.induct) (auto simp: nth_list_update)

lemma apply_writes_written:
  assumes "Some (i, v) \<in> set ws" and "\<And>v'. Some (i, v') \<in> set ws \<Longrightarrow> v' = v" and "i < length xs"
  shows "apply_writes ws xs ! i = v"
  using assms
proof (induction ws arbitrary: xs)
  case Nil
  then show ?case by simp
next
  case (Cons a ws)
  have same: "\<And>v'. Some (i, v') \<in> set ws \<Longrightarrow> v' = v"
    using Cons.prems(2) by simp
  show ?case
  proof (cases "Some (i, v) \<in> set ws")
    case True
    have IH: "apply_writes ws ys ! i = v" if "i < length ys" for ys
      using True same that by (rule Cons.IH)
    show ?thesis
    proof (cases a)
      case None
      then show ?thesis using IH [of xs] Cons.prems(3) by simp
    next
      case (Some jw)
      obtain j w where jw: "jw = (j, w)" by (cases jw)
      show ?thesis using IH [of "xs[j := w]"] Cons.prems(3) Some jw by simp
    qed
  next
    case False
    with Cons.prems(1) have a: "a = Some (i, v)" by simp
    have "\<forall>v'. Some (i, v') \<notin> set ws"
    proof (intro allI notI)
      fix v' assume m: "Some (i, v') \<in> set ws"
      then have "v' = v" by (rule same)
      with m False show False by simp
    qed
    then have "apply_writes ws (xs[i := v]) ! i = xs[i := v] ! i"
      by (rule apply_writes_untouched)
    with a Cons.prems(3) show ?thesis by simp
  qed
qed












lemma wf_tensor_position:
  "wf_tensor t \<Longrightarrow> i < tensor_size t \<Longrightarrow>
   index_to_position (to_index i (shape t)) (strides t) < length (storage t)"
  by (simp add: wf_tensor_def list_all_iff)

lemma wf_tensor_valid:
  assumes "wf_tensor t" and "valid_index c (shape t)"
  shows "index_to_position c (strides t) < length (storage t)"
proof -
  let ?p = "index_to_position c (contiguous_strides (shape t))"
  from valid_index_position [OF assms(2)]
  have "?p < tensor_size t" and "to_index ?p (shape t) = c"
    by (simp_all add: tensor_size_def size_of_def)
  with wf_tensor_position [OF assms(1), of ?p] show ?thesis by simp
qed

section \<open>The elementwise launches\<close>

lemma load_in_range: "i < length (m p) \<Longrightarrow> load m p i = Inr (m p ! i)"
  by (simp add: load_def)






section \<open>The shape of a reduction\<close>




section \<open>Broadcasting\<close>









section \<open>The writes of an elementwise thread\<close>




section \<open>The tree of the reduction\<close>






lemma length_tree_round [simp]: "length (tree_round fn act r c) = 1024"
  by (simp add: tree_round_def BLOCK_DIM_def)



lemma sequence_result_map:
  "(\<And>x. x \<in> set xs \<Longrightarrow> f x = Inr (g x)) \<Longrightarrow> sequence_result (map f xs) = Inr (map g xs)"
  by (induction xs) simp_all










section \<open>The reduction over several chunks\<close>

lemma to_index_single: "to_index p [n] = [p mod n]"
  by (simp add: to_index_def)

lemma tensor_reduce_axis_2050:
  fixes m :: "('p, 'a) memory"
  assumes ma: "length (m pa) = 2050" and t: "t < 3"
  shows "\<exists>v. tensor_reduce fn out [3] [1] 3 pa [2050] [1] 0 start t m
             = store m out (t * 1024) v"
proof -
  have idx: "reduce_thread_index t [3] 0 pos = [t * 1024 + pos]" for pos
    using t by (simp add: reduce_thread_index_def to_index_single BLOCK_DIM_def)
  have pos1: "index_to_position [q] [s] = q * s" for q s
    by (simp add: index_to_position_def)
  let ?g = "\<lambda>pos. if t * 1024 + pos < 2050 then m pa ! (t * 1024 + pos) else start"
  have stage: "reduce_stage m pa [2050] [1] [3] 0 start t pos = Inr (?g pos)" for pos
    using ma by (simp add: reduce_stage_def reduce_active_def idx pos1 load_def)
  have seq: "sequence_result (map (reduce_stage m pa [2050] [1] [3] 0 start t) [0..<BLOCK_DIM])
             = Inr (map ?g [0..<BLOCK_DIM])"
    by (rule sequence_result_map) (rule stage)
  have wpos: "index_to_position (reduce_thread_index t [3] 0 0) [1] = t * 1024"
    by (simp add: idx pos1)
  have "tensor_reduce fn out [3] [1] 3 pa [2050] [1] 0 start t m
        = store m out (t * 1024)
            (tree_combine fn (reduce_active t [3] [2050] 0) 0 (map ?g [0..<BLOCK_DIM]) ! 0)"
    using t by (simp only: tensor_reduce_def Let_def if_True seq sum.case wpos)
       simp
  then show ?thesis by blast
qed

lemma cuda_reduce_axis_2050:
  fixes xs :: "'a::zero list"
  assumes len: "length xs = 2050"
  shows "cuda_reduce fn start \<lparr>storage = xs, shape = [2050], strides = [1]\<rparr> 0 = Inl OutOfBounds"
proof -
  let ?a = "\<lparr>storage = xs, shape = [2050], strides = [1]\<rparr>"
  let ?mem0 = "device_memory (replicate 3 (0::'a)) xs []"
  let ?kern = "tensor_reduce fn OUT [3] [1] 3 IN_A [2050] [1] 0 start"
  have ro: "reduce_out_shape [2050] 0 = Inr [3]"
    by (simp add: reduce_out_shape_def)
  have blocks: "[0..<3] = [0, 1, 2]" by (simp add: upt_rec)
  from tensor_reduce_axis_2050 [of ?mem0 IN_A 0 fn OUT start]
  obtain v0 where "?kern 0 ?mem0 = store ?mem0 OUT 0 v0"
    using len by (auto simp: device_memory_def)
  then have b0: "?kern 0 ?mem0 = Inr (?mem0(OUT := (?mem0 OUT)[0 := v0]))"
    by (simp add: store_def device_memory_def)
  let ?mem1 = "?mem0(OUT := (?mem0 OUT)[0 := v0])"
  from tensor_reduce_axis_2050 [of ?mem1 IN_A 1 fn OUT start]
  obtain v1 where "?kern 1 ?mem1 = store ?mem1 OUT 1024 v1"
    using len by (auto simp: device_memory_def)
  then have b1: "?kern 1 ?mem1 = Inl OutOfBounds"
    by (simp add: store_def device_memory_def)
  have run: "run_threads ?kern [0, 1, 2] ?mem0 = Inl OutOfBounds"
    by (simp only: run_threads.simps b0 b1 sum.case)
  have z: "tensor_size (zeros [3] :: 'a tensor) = 3" "shape (zeros [3] :: 'a tensor) = [3]"
    "strides (zeros [3] :: 'a tensor) = [1]"
    "storage (zeros [3] :: 'a tensor) = replicate 3 0"
    by (simp_all add: zeros_def tensor_size_def size_of_def)
  have "cuda_reduce fn start ?a 0
      = (case run_threads ?kern [0..<3] ?mem0 of
           Inl e \<Rightarrow> Inl e
         | Inr mem \<Rightarrow> Inr ((zeros [3])\<lparr>storage := mem OUT\<rparr>))"
    by (simp only: cuda_reduce_def Let_def ro sum.case z tensor.select_convs)
  then show ?thesis by (simp only: blocks run sum.case)
qed

text \<open>
  C1 against the code. In the launch for an axis of 2050 elements (output shape \<open>(3)\<close>,
  strides \<open>(1)\<close>) the block of the second chunk, \<open>out_pos = 1\<close>, decodes the output
  coordinate \<open>[1]\<close>, whose position is 1; but thread 0 stores through the coordinate
  buffer it has overwritten at line 333, \<open>[1 * 1024 + 0]\<close>, at position 1024. The call
  stores outside the three cells of its output, whatever \<open>fn\<close>, \<open>start\<close> and the 2050
  values are.
\<close>

theorem reduce_second_chunk_position:
  "to_index 1 [3] = [1] \<and>
   index_to_position (to_index 1 [3]) [1] = 1 \<and>
   reduce_thread_index 1 [3] 0 0 = [1024] \<and>
   index_to_position (reduce_thread_index 1 [3] 0 0) [1] = 1024 \<and>
   reduce_out_shape [2050] 0 = Inr [3] \<and>
   cuda_reduce fn start \<lparr>storage = replicate 2050 (1::int), shape = [2050], strides = [1]\<rparr> 0
     = Inl OutOfBounds"
proof -
  have "cuda_reduce fn start \<lparr>storage = replicate 2050 (1::int), shape = [2050], strides = [1]\<rparr> 0
     = Inl OutOfBounds"
    by (rule cuda_reduce_axis_2050) (simp only: length_replicate)
  moreover have "reduce_thread_index 1 [3] 0 0 = [1024]"
    by (simp add: reduce_thread_index_def to_index_single BLOCK_DIM_def)
  moreover have "reduce_out_shape [2050] 0 = Inr [3]"
    by (simp add: reduce_out_shape_def)
  ultimately show ?thesis
    by (simp add: to_index_single index_to_position_def)
qed

section \<open>Matrix multiplication: the host checks\<close>

lemma shape_as_3d:
  "shape (as_3d t) = (if length (shape t) = 2 then [1, shape t ! 0, shape t ! 1] else shape t)"
  by (simp add: as_3d_def view_def)

lemma as_3d_inner:
  assumes "2 \<le> length (shape t)"
  shows "2 \<le> length (shape (as_3d t))"
    and "last (shape (as_3d t)) = last (shape t)"
    and "shape (as_3d t) ! (length (shape (as_3d t)) - 2) = shape t ! (length (shape t) - 2)"
proof -
  show "2 \<le> length (shape (as_3d t))" using assms by (simp add: shape_as_3d)
  show "last (shape (as_3d t)) = last (shape t)"
  proof (cases "length (shape t) = 2")
    case True
    then have "shape t \<noteq> []" by auto
    then have "last (shape t) = shape t ! (length (shape t) - 1)" by (rule last_conv_nth)
    with True have "last (shape t) = shape t ! 1" by simp
    with True show ?thesis by (simp add: shape_as_3d)
  next
    case False
    then show ?thesis by (simp add: shape_as_3d)
  qed
  show "shape (as_3d t) ! (length (shape (as_3d t)) - 2) = shape t ! (length (shape t) - 2)"
    by (simp add: shape_as_3d)
qed

text \<open>
  C8, as the code has it. After the rank normalization, and before the output is
  allocated and the kernel launched, \<open>matrix_multiply\<close> compares the trailing extent of
  \<open>a\<close> with the second-to-last extent of \<open>b\<close>. When they differ the call returns an error
  and no tensor: the assertion error when the batch shapes broadcast, and otherwise the
  error of the broadcast of the batch shapes, which line 119 raises first.
\<close>

theorem matrix_multiply_inner_mismatch:
  assumes "2 \<le> length (shape a)" and "2 \<le> length (shape b)"
    and "last (shape a) \<noteq> shape b ! (length (shape b) - 2)"
  shows "(case shape_broadcast (take (length (shape (as_3d a)) - 2) (shape (as_3d a)))
                (take (length (shape (as_3d b)) - 2) (shape (as_3d b))) of
            Inl e \<Rightarrow> matrix_multiply a b = Inl e
          | Inr ls \<Rightarrow> matrix_multiply a b = Inl AssertionError)"
proof -
  note A = as_3d_inner [OF assms(1)] and B = as_3d_inner [OF assms(2)]
  from assms(3) A(2) B(3)
  have ne: "last (shape (as_3d a)) \<noteq> shape (as_3d b) ! (length (shape (as_3d b)) - 2)"
    by simp
  from A(1) B(1) have r: "\<not> (length (shape (as_3d a)) < 2 \<or> length (shape (as_3d b)) < 2)"
    by simp
  show ?thesis
    by (simp only: matrix_multiply_def Let_def r ne if_False if_True simp_thms split: sum.split)
       simp
qed

theorem matrix_multiply_inner_mismatch_witness:
  "(2::nat) \<le> length (shape \<lparr>storage = [1, 2, 3, 4, 5, 6 :: int], shape = [2, 3], strides = [3, 1]\<rparr>) \<and>
   (2::nat) \<le> length (shape \<lparr>storage = [1, 2, 3, 4 :: int], shape = [2, 2], strides = [2, 1]\<rparr>) \<and>
   last [2, 3] \<noteq> [2, 2 :: nat] ! (length [2, 2 :: nat] - 2) \<and>
   matrix_multiply \<lparr>storage = [1, 2, 3, 4, 5, 6 :: int], shape = [2, 3], strides = [3, 1]\<rparr>
                   \<lparr>storage = [1, 2, 3, 4 :: int], shape = [2, 2], strides = [2, 1]\<rparr>
     = Inl AssertionError"
proof -
  let ?a = "\<lparr>storage = [1, 2, 3, 4, 5, 6 :: int], shape = [2, 3], strides = [3, 1]\<rparr>"
  let ?b = "\<lparr>storage = [1, 2, 3, 4 :: int], shape = [2, 2], strides = [2, 1]\<rparr>"
  have h: "2 \<le> length (shape ?a)" "2 \<le> length (shape ?b)"
    "last (shape ?a) \<noteq> shape ?b ! (length (shape ?b) - 2)"
    by simp_all
  have bc: "shape_broadcast (take (length (shape (as_3d ?a)) - 2) (shape (as_3d ?a)))
              (take (length (shape (as_3d ?b)) - 2) (shape (as_3d ?b))) = Inr [1]"
    by (simp add: shape_as_3d shape_broadcast_def)
  from matrix_multiply_inner_mismatch [OF h]
  have "matrix_multiply ?a ?b = Inl AssertionError"
    by (simp only: bc sum.case)
  with h show ?thesis by simp
qed

text \<open>
  The statement of C8 names the assertion error for every disagreement of the inner
  extents. With \<open>a\<close> of shape \<open>(2, 3, 4)\<close> and \<open>b\<close> of shape \<open>(3, 5, 6)\<close> the inner extents 4
  and 5 disagree, and the call fails with the error of \<open>shape_broadcast\<close> on the batch
  shapes \<open>(2)\<close> and \<open>(3)\<close>, which line 119 raises before the assertion of line 122.
\<close>

theorem matrix_multiply_inner_mismatch_counterexample:
  "last [2, 3, 4 :: nat] \<noteq> [3, 5, 6 :: nat] ! (length [3, 5, 6 :: nat] - 2) \<and>
   matrix_multiply \<lparr>storage = replicate 24 (0::int), shape = [2, 3, 4], strides = [12, 4, 1]\<rparr>
                   \<lparr>storage = replicate 90 (0::int), shape = [3, 5, 6], strides = [30, 6, 1]\<rparr>
     = Inl IndexingError \<and>
   matrix_multiply \<lparr>storage = replicate 24 (0::int), shape = [2, 3, 4], strides = [12, 4, 1]\<rparr>
                   \<lparr>storage = replicate 90 (0::int), shape = [3, 5, 6], strides = [30, 6, 1]\<rparr>
     \<noteq> Inl AssertionError"
  by (simp add: matrix_multiply_def as_3d_def shape_broadcast_def)

section \<open>Matrix multiplication: the kernel\<close>

lemma guarded_loop:
  "foldl (\<lambda>acc k. if s + k < K then f acc (s + k) else acc) z [0..<t]
     = foldl f z [s..<s + min t (K - s)]"
proof (induction t)
  case 0
  show ?case by simp
next
  case (Suc t)
  show ?case
  proof (cases "s + t < K")
    case True
    then have "min t (K - s) = t" "min (Suc t) (K - s) = Suc t" by simp_all
    with Suc True show ?thesis by simp
  next
    case False
    then have "min t (K - s) = K - s" "min (Suc t) (K - s) = K - s" by simp_all
    with Suc False show ?thesis by simp
  qed
qed

lemma chunked_loop:
  "foldl (\<lambda>acc idx. foldl (\<lambda>acc k. if idx + k < K then f acc (idx + k) else acc) acc [0..<T])
      z (map (\<lambda>c. c * T) [0..<n])
   = foldl f z [0..<min (n * T) K]"
proof (induction n)
  case 0
  show ?case by simp
next
  case (Suc n)
  let ?s = "n * T"
  have "[0..<min ?s K] @ [?s..<?s + min T (K - ?s)] = [0..<min (Suc n * T) K]"
  proof (cases "?s \<le> K")
    case True
    then have "min ?s K = ?s" "?s + min T (K - ?s) = min (Suc n * T) K" by simp_all
    moreover have "[0..<?s] @ [?s..<?s + min T (K - ?s)] = [0..<?s + min T (K - ?s)]"
      by (simp add: upt_add_eq_append [symmetric])
    ultimately show ?thesis by simp
  next
    case False
    then have "min ?s K = K" "min T (K - ?s) = 0" "min (Suc n * T) K = K" by simp_all
    then show ?thesis by simp
  qed
  then have "foldl f z [0..<min (Suc n * T) K]
           = foldl f (foldl f z [0..<min ?s K]) [?s..<?s + min T (K - ?s)]"
    by (simp only: foldl_append [symmetric])
  with Suc show ?case by (simp add: guarded_loop)
qed

lemma chunk_starts_loop:
  "foldl (\<lambda>acc idx. foldl (\<lambda>acc k. if idx + k < K then f acc (idx + k) else acc) acc
                        [0..<MM_BLOCK_DIM])
      z (chunk_starts K)
   = foldl f z [0..<K]"
proof -
  let ?n = "(K + MM_BLOCK_DIM - 1) div MM_BLOCK_DIM"
  have "K \<le> ?n * MM_BLOCK_DIM"
  proof -
    have "K + 31 < ((K + 31) div 32) * 32 + 32"
      using dividend_less_div_times [of 32 "K + 31"] by simp
    then show ?thesis by (simp add: MM_BLOCK_DIM_def)
  qed
  then have "min (?n * MM_BLOCK_DIM) K = K" by simp
  then show ?thesis
    unfolding chunk_starts_def by (simp only: chunked_loop)
qed

lemma load_tile_Inr:
  assumes "\<And>pi pj. pi < T \<Longrightarrow> pj < T \<Longrightarrow> ld pi pj = Inr (g pi pj)"
  shows "load_tile T ld = Inr (map (\<lambda>pi. map (\<lambda>pj. g pi pj) [0..<T]) [0..<T])"
proof -
  have row: "sequence_result (map (\<lambda>pj. ld pi pj) [0..<T]) = Inr (map (\<lambda>pj. g pi pj) [0..<T])"
    if "pi < T" for pi
    by (rule sequence_result_map) (simp add: assms that)
  show ?thesis
    unfolding load_tile_def
    by (rule sequence_result_map) (simp add: row)
qed

lemma mm_dot_tiles:
  assumes pi: "pi < MM_BLOCK_DIM" and pj: "pj < MM_BLOCK_DIM"
  shows "mm_dot (map (\<lambda>pi. map (\<lambda>pj. A pi (idx + pj)) [0..<MM_BLOCK_DIM]) [0..<MM_BLOCK_DIM])
                (map (\<lambda>pi. map (\<lambda>pj. B (idx + pi) pj) [0..<MM_BLOCK_DIM]) [0..<MM_BLOCK_DIM])
                K idx pi pj accum
         = foldl (\<lambda>acc k. if idx + k < K then acc + A pi (idx + k) * B (idx + k) pj else acc)
             accum [0..<MM_BLOCK_DIM]"
  unfolding mm_dot_def
proof (rule foldl_cong [OF refl refl])
  fix acc k
  assume "k \<in> set [0..<MM_BLOCK_DIM]"
  then have k: "k < MM_BLOCK_DIM" by simp
  show "(if idx + k < K
         then acc + map (\<lambda>pi. map (\<lambda>pj. A pi (idx + pj)) [0..<MM_BLOCK_DIM]) [0..<MM_BLOCK_DIM] ! pi ! k
                  * map (\<lambda>pi. map (\<lambda>pj. B (idx + pi) pj) [0..<MM_BLOCK_DIM]) [0..<MM_BLOCK_DIM] ! k ! pj
         else acc)
      = (if idx + k < K then acc + A pi (idx + k) * B (idx + k) pj else acc)"
    using pi pj k by simp
qed

lemma mm_chunks_result:
  fixes A B :: "nat \<Rightarrow> nat \<Rightarrow> 'a::{plus,times}"
  assumes lda: "\<And>idx pi pj. pi < MM_BLOCK_DIM \<Longrightarrow> pj < MM_BLOCK_DIM \<Longrightarrow>
                  ld_a idx pi pj = Inr (A pi (idx + pj))"
    and ldb: "\<And>idx pi pj. pi < MM_BLOCK_DIM \<Longrightarrow> pj < MM_BLOCK_DIM \<Longrightarrow>
                  ld_b idx pi pj = Inr (B (idx + pi) pj)"
  shows "\<exists>accum'. mm_chunks MM_BLOCK_DIM ld_a ld_b K idxs accum = Inr accum' \<and>
           (\<forall>pi < MM_BLOCK_DIM. \<forall>pj < MM_BLOCK_DIM.
              accum' pi pj
              = foldl (\<lambda>acc idx.
                         foldl (\<lambda>acc k. if idx + k < K
                                         then acc + A pi (idx + k) * B (idx + k) pj else acc)
                           acc [0..<MM_BLOCK_DIM])
                  (accum pi pj) idxs)"
proof (induction idxs arbitrary: accum)
  case Nil
  show ?case by simp
next
  case (Cons idx idxs)
  let ?ta = "map (\<lambda>pi. map (\<lambda>pj. A pi (idx + pj)) [0..<MM_BLOCK_DIM]) [0..<MM_BLOCK_DIM]"
  let ?tb = "map (\<lambda>pi. map (\<lambda>pj. B (idx + pi) pj) [0..<MM_BLOCK_DIM]) [0..<MM_BLOCK_DIM]"
  let ?acc1 = "\<lambda>pi pj. mm_dot ?ta ?tb K idx pi pj (accum pi pj)"
  have ta: "load_tile MM_BLOCK_DIM (ld_a idx) = Inr ?ta"
    by (rule load_tile_Inr) (rule lda)
  have tb: "load_tile MM_BLOCK_DIM (ld_b idx) = Inr ?tb"
    by (rule load_tile_Inr) (rule ldb)
  have unf: "mm_chunks MM_BLOCK_DIM ld_a ld_b K (idx # idxs) accum
           = mm_chunks MM_BLOCK_DIM ld_a ld_b K idxs ?acc1"
    by (simp only: mm_chunks.simps ta tb sum.case)
  from Cons.IH [of ?acc1] obtain accum' where
    r: "mm_chunks MM_BLOCK_DIM ld_a ld_b K idxs ?acc1 = Inr accum'"
    and v: "\<forall>pi < MM_BLOCK_DIM. \<forall>pj < MM_BLOCK_DIM.
              accum' pi pj
              = foldl (\<lambda>acc idx.
                         foldl (\<lambda>acc k. if idx + k < K
                                         then acc + A pi (idx + k) * B (idx + k) pj else acc)
                           acc [0..<MM_BLOCK_DIM])
                  (?acc1 pi pj) idxs"
    by blast
  have "accum' pi pj
        = foldl (\<lambda>acc idx.
                   foldl (\<lambda>acc k. if idx + k < K
                                   then acc + A pi (idx + k) * B (idx + k) pj else acc)
                     acc [0..<MM_BLOCK_DIM])
            (accum pi pj) (idx # idxs)"
    if "pi < MM_BLOCK_DIM" "pj < MM_BLOCK_DIM" for pi pj
    using v that by (simp only: foldl_Cons mm_dot_tiles [OF that])
  with r unf show ?case by (simp only:) blast
qed

lemma apply_writes_append:
  "apply_writes (ws @ ws') xs = apply_writes ws' (apply_writes ws xs)"
  by (induction ws xs rule: apply_writes.induct) simp_all

lemma run_threads_blocks_aux:
  fixes mem0 :: "('p, 'a) memory"
  assumes step: "\<And>t m. t \<in> set ts \<Longrightarrow> (\<forall>p. p \<noteq> out \<longrightarrow> m p = mem0 p) \<Longrightarrow>
              length (m out) = length (mem0 out) \<Longrightarrow>
              kern t m = Inr (m(out := apply_writes (ws t) (m out)))"
  shows "(\<forall>p. p \<noteq> out \<longrightarrow> m p = mem0 p) \<Longrightarrow> length (m out) = length (mem0 out) \<Longrightarrow>
        set us \<subseteq> set ts \<Longrightarrow>
        run_threads kern us m = Inr (m(out := apply_writes (concat (map ws us)) (m out)))"
proof (induction us arbitrary: m)
  case Nil
  show ?case by simp
next
  case (Cons u us)
  from Cons.prems have u: "u \<in> set ts" and us: "set us \<subseteq> set ts" by simp_all
  let ?m' = "m(out := apply_writes (ws u) (m out))"
  have k: "kern u m = Inr ?m'" using step [OF u Cons.prems(1,2)] .
  have inv1: "\<forall>p. p \<noteq> out \<longrightarrow> ?m' p = mem0 p" using Cons.prems(1) by simp
  have inv2: "length (?m' out) = length (mem0 out)" using Cons.prems(2) by simp
  have "run_threads kern us ?m' = Inr (?m'(out := apply_writes (concat (map ws us)) (?m' out)))"
    using inv1 inv2 us by (rule Cons.IH)
  also have "?m'(out := apply_writes (concat (map ws us)) (?m' out))
           = m(out := apply_writes (concat (map ws (u # us))) (m out))"
    by (simp add: apply_writes_append)
  finally have "run_threads kern us ?m'
              = Inr (m(out := apply_writes (concat (map ws (u # us))) (m out)))" .
  moreover have "run_threads kern (u # us) m = run_threads kern us ?m'"
    by (simp only: run_threads.simps k sum.case)
  ultimately show ?case by (simp only:)
qed

lemma run_threads_blocks:
  fixes mem0 :: "('p, 'a) memory"
  assumes "\<And>t m. t \<in> set ts \<Longrightarrow> (\<forall>p. p \<noteq> out \<longrightarrow> m p = mem0 p) \<Longrightarrow>
              length (m out) = length (mem0 out) \<Longrightarrow>
              kern t m = Inr (m(out := apply_writes (ws t) (m out)))"
  shows "run_threads kern ts mem0 = Inr (mem0(out := apply_writes (concat (map ws ts)) (mem0 out)))"
  using run_threads_blocks_aux [of ts out mem0 kern ws mem0 ts] assms by simp

lemma cell_writes:
  assumes c: "c \<in> set cs" and v: "valid_index c sh" and len: "length xs = prod_list sh"
  shows "apply_writes (map (cell_write sh (contiguous_strides sh) val) cs) xs
           ! index_to_position c (contiguous_strides sh) = val c"
proof (rule apply_writes_written)
  have "cell_write sh (contiguous_strides sh) val c
          = Some (index_to_position c (contiguous_strides sh), val c)"
    using v by (simp add: cell_write_def)
  then show "Some (index_to_position c (contiguous_strides sh), val c)
               \<in> set (map (cell_write sh (contiguous_strides sh) val) cs)"
    using c by (simp only: set_map) (rule image_eqI [where x = c], simp_all)
next
  fix v'
  assume "Some (index_to_position c (contiguous_strides sh), v')
            \<in> set (map (cell_write sh (contiguous_strides sh) val) cs)"
  then obtain c' where
    w: "cell_write sh (contiguous_strides sh) val c'
          = Some (index_to_position c (contiguous_strides sh), v')"
    by auto
  then have v': "valid_index c' sh"
    and p: "index_to_position c' (contiguous_strides sh) = index_to_position c (contiguous_strides sh)"
    and val: "v' = val c'"
    by (auto simp: cell_write_def split: if_splits)
  from valid_index_position [OF v'] valid_index_position [OF v] p have "c' = c" by metis
  with val show "v' = val c" by simp
next
  from valid_index_position [OF v] len
  show "index_to_position c (contiguous_strides sh) < length xs" by simp
qed

lemma position3: "index_to_position [x, y, z] [s0, s1, s2] = x * s0 + y * s1 + z * s2"
  by (simp add: index_to_position_def)

lemma valid_index3: "valid_index [x, y, z] [X, Y, Z] \<longleftrightarrow> x < X \<and> y < Y \<and> z < Z"
  by (simp add: valid_index_def)

lemma set_block_threads: "set (block_threads T) = {(pi, pj). pi < T \<and> pj < T}"
  by (auto simp: block_threads_def)

lemma mm_load_a_Inr:
  fixes m :: "('p, 'a::zero) memory"
  assumes wf: "wf_tensor a" and sa: "shape a = [Ba, M, K]" and ma: "m pa = storage a"
    and ba: "(if 1 < Ba then bz else 0) < Ba"
  shows "mm_load_a m pa (shape a) (strides a) bz i idx pj
         = Inr (if i < M \<and> idx + pj < K
                then elem a [if 1 < Ba then bz else 0, i, idx + pj] else 0)"
proof (cases "i < M \<and> idx + pj < K")
  case False
  then show ?thesis by (auto simp: mm_load_a_def sa)
next
  case True
  from wf sa have "length (strides a) = 3" by (simp add: wf_tensor_def)
  then obtain s0 s1 s2 where st: "strides a = [s0, s1, s2]"
    by (auto simp: length_Suc_conv numeral_3_eq_3)
  let ?c = "[if 1 < Ba then bz else 0, i, idx + pj]"
  have "valid_index ?c (shape a)" using True ba by (simp add: sa valid_index3)
  from wf_tensor_valid [OF wf this]
  have r: "index_to_position ?c (strides a) < length (m pa)" by (simp add: ma)
  have p: "(if 1 < Ba then s0 else 0) * bz + s1 * i + s2 * (idx + pj)
             = index_to_position ?c (strides a)"
    by (simp add: st position3 mult.commute)
  have "mm_load_a m pa (shape a) (strides a) bz i idx pj
          = load m pa ((if 1 < Ba then s0 else 0) * bz + s1 * i + s2 * (idx + pj))"
    using True by (simp add: mm_load_a_def sa st Let_def)
  also have "\<dots> = load m pa (index_to_position ?c (strides a))" by (simp only: p)
  also have "\<dots> = Inr (elem a ?c)" using r by (simp only: load_def elem_def ma if_True)
  finally show ?thesis using True by simp
qed

lemma mm_load_b_Inr:
  fixes m :: "('p, 'a::zero) memory"
  assumes wf: "wf_tensor b" and sb: "shape b = [Bb, K, N]" and mb: "m pb = storage b"
    and bb: "(if 1 < Bb then bz else 0) < Bb"
  shows "mm_load_b m pb (shape b) (strides b) bz j idx pi
         = Inr (if j < N \<and> idx + pi < K
                then elem b [if 1 < Bb then bz else 0, idx + pi, j] else 0)"
proof (cases "j < N \<and> idx + pi < K")
  case False
  then show ?thesis by (auto simp: mm_load_b_def sb)
next
  case True
  from wf sb have "length (strides b) = 3" by (simp add: wf_tensor_def)
  then obtain s0 s1 s2 where st: "strides b = [s0, s1, s2]"
    by (auto simp: length_Suc_conv numeral_3_eq_3)
  let ?c = "[if 1 < Bb then bz else 0, idx + pi, j]"
  have "valid_index ?c (shape b)" using True bb by (simp add: sb valid_index3)
  from wf_tensor_valid [OF wf this]
  have r: "index_to_position ?c (strides b) < length (m pb)" by (simp add: mb)
  have p: "(if 1 < Bb then s0 else 0) * bz + s1 * (idx + pi) + s2 * j
             = index_to_position ?c (strides b)"
    by (simp add: st position3 mult.commute)
  have "mm_load_b m pb (shape b) (strides b) bz j idx pi
          = load m pb ((if 1 < Bb then s0 else 0) * bz + s1 * (idx + pi) + s2 * j)"
    using True by (simp add: mm_load_b_def sb st Let_def)
  also have "\<dots> = load m pb (index_to_position ?c (strides b))" by (simp only: p)
  also have "\<dots> = Inr (elem b ?c)" using r by (simp only: load_def elem_def mb if_True)
  finally show ?thesis using True by simp
qed

end
